theory Spec2Isabelle
  imports Complex_Main
begin

section \<open>Data model\<close>

text \<open>
  The program is \<^verbatim>\<open>functions.py\<close>: a Gaussian kernel, density functions of a
  Gaussian-process model and two Metropolis-Hastings samplers, written with NumPy.

  A one-dimensional array is a list of reals, a two-dimensional array the list of its rows.
  Floating-point numbers are idealised as reals: rounding is left out, and inputs on which
  NumPy would produce \<^verbatim>\<open>inf\<close> or \<^verbatim>\<open>nan\<close> (a division by zero of arrays, the
  logarithm of zero, the square root of a negative number) lie outside the model; the
  theorems say so in their hypotheses where a value depends on it.
\<close>

type_synonym vec = "real list"
type_synonym mat = "real list list"

text \<open>The exceptions the program can raise, and the Python values its functions return.\<close>

datatype py_error = AssertionError | ValueError | LinAlgError | TypeError | ZeroDivisionError

datatype pyval = PyNone | PyFloat real

section \<open>The kernel\<close>

text \<open>
  \<^verbatim>\<open>scipy.spatial.distance_matrix(x, y)\<close> is the Minkowski distance with \<open>p = 2\<close> between
  every row of \<open>x\<close> and every row of \<open>y\<close>: \<^verbatim>\<open>sum(abs(y - x)**p, axis=-1)**(1/p)\<close>.
\<close>

definition minkowski_distance :: "vec \<Rightarrow> vec \<Rightarrow> real" where
  "minkowski_distance a b = sqrt (sum_list (map (\<lambda>(p, q). \<bar>q - p\<bar> ^ 2) (zip a b)))"

definition distance_matrix :: "mat \<Rightarrow> mat \<Rightarrow> mat" where
  "distance_matrix x y = map (\<lambda>a. map (\<lambda>b. minkowski_distance a b) y) x"

text \<open>
  \<^verbatim>\<open>
  def GaussianKernel(x, l):
      D = distance_matrix(x, x)
      return np.exp(-pow(D, 2)/(2*pow(l, 2)))
  \<close>
\<close>

definition GaussianKernel :: "mat \<Rightarrow> real \<Rightarrow> mat" where
  "GaussianKernel x l =
     (let D = distance_matrix x x
      in map (map (\<lambda>d. exp (- (d ^ 2) / (2 * l ^ 2)))) D)"

text \<open>The Euclidean distance of the specification, written out for the comparison.\<close>

definition euclidean :: "vec \<Rightarrow> vec \<Rightarrow> real" where
  "euclidean a b = sqrt (\<Sum>(p, q)\<leftarrow>zip a b. (p - q) ^ 2)"

section \<open>NumPy operations\<close>

text \<open>
  The operations of NumPy the program calls, with the shape checks NumPy makes: a
  product of incompatible shapes raises \<^verbatim>\<open>ValueError\<close>, a routine of
  \<^verbatim>\<open>numpy.linalg\<close> on a matrix that is not square, not positive definite or singular raises
  \<^verbatim>\<open>LinAlgError\<close>. A matrix with no row is taken to have no column.
\<close>

definition ncols :: "mat \<Rightarrow> nat" where
  "ncols A = (case A of [] \<Rightarrow> 0 | r # _ \<Rightarrow> length r)"

definition is_matrix :: "nat \<Rightarrow> nat \<Rightarrow> mat \<Rightarrow> bool" where
  "is_matrix m n A = (length A = m \<and> list_all (\<lambda>r. length r = n) A)"

definition column :: "mat \<Rightarrow> nat \<Rightarrow> vec" where
  "column A j = map (\<lambda>r. r ! j) A"

definition dot :: "vec \<Rightarrow> vec \<Rightarrow> real" where
  "dot a b = sum_list (map2 (*) a b)"

text \<open>\<^verbatim>\<open>a @ b\<close> for two one-dimensional arrays.\<close>

definition np_dot :: "vec \<Rightarrow> vec \<Rightarrow> py_error + real" where
  "np_dot a b = (if length a = length b then Inr (dot a b) else Inl ValueError)"

text \<open>\<^verbatim>\<open>A @ u\<close> for a two-dimensional \<open>A\<close> and a one-dimensional \<open>u\<close>.\<close>

definition np_matvec :: "mat \<Rightarrow> vec \<Rightarrow> py_error + vec" where
  "np_matvec A u =
     (if is_matrix (length A) (length u) A then Inr (map (\<lambda>r. dot r u) A) else Inl ValueError)"

text \<open>\<^verbatim>\<open>u @ A\<close> for a one-dimensional \<open>u\<close> and a two-dimensional \<open>A\<close>.\<close>

definition np_vecmat :: "vec \<Rightarrow> mat \<Rightarrow> py_error + vec" where
  "np_vecmat u A =
     (if is_matrix (length u) (ncols A) A then Inr (map (\<lambda>j. dot u (column A j)) [0..<ncols A])
      else Inl ValueError)"

definition transpose_mat :: "mat \<Rightarrow> mat" where
  "transpose_mat A = map (column A) [0..<ncols A]"

definition matmul :: "mat \<Rightarrow> mat \<Rightarrow> mat" where
  "matmul A B = map (\<lambda>r. map (\<lambda>j. dot r (column B j)) [0..<ncols B]) A"

definition np_eye :: "nat \<Rightarrow> mat" where
  "np_eye N = map (\<lambda>i. map (\<lambda>j. if i = j then 1 else 0) [0..<N]) [0..<N]"

definition mat_scale :: "real \<Rightarrow> mat \<Rightarrow> mat" where
  "mat_scale c A = map (map ((*) c)) A"

text \<open>
  Broadcasting: two axes are compatible when their lengths are equal or one of them is 1,
  and the axis of length 1 is repeated.
\<close>

definition bc_ok :: "nat \<Rightarrow> nat \<Rightarrow> bool" where
  "bc_ok m n = (m = n \<or> m = 1 \<or> n = 1)"

definition bc_dim :: "nat \<Rightarrow> nat \<Rightarrow> nat" where
  "bc_dim m n = (if m = 1 then n else m)"

definition bc_ix :: "nat \<Rightarrow> nat \<Rightarrow> nat" where
  "bc_ix m i = (if m = 1 then 0 else i)"

text \<open>An elementwise operation on two one-dimensional arrays.\<close>

definition np_broadcast :: "(real \<Rightarrow> real \<Rightarrow> real) \<Rightarrow> vec \<Rightarrow> vec \<Rightarrow> py_error + vec" where
  "np_broadcast f a b =
     (let m = length a; n = length b
      in if bc_ok m n
         then Inr (map (\<lambda>i. f (a ! bc_ix m i) (b ! bc_ix n i)) [0..<bc_dim m n])
         else Inl ValueError)"

text \<open>\<^verbatim>\<open>A + B\<close> for two two-dimensional arrays.\<close>

definition np_add_mat :: "mat \<Rightarrow> mat \<Rightarrow> py_error + mat" where
  "np_add_mat A B =
     (let m1 = length A; n1 = ncols A; m2 = length B; n2 = ncols B
      in if is_matrix m1 n1 A \<and> is_matrix m2 n2 B \<and> bc_ok m1 m2 \<and> bc_ok n1 n2
         then Inr (map (\<lambda>i. map (\<lambda>j. A ! bc_ix m1 i ! bc_ix n1 j + B ! bc_ix m2 i ! bc_ix n2 j)
                                 [0..<bc_dim n1 n2])
                       [0..<bc_dim m1 m2])
         else Inl ValueError)"

text \<open>The determinant, by expansion along the first row.\<close>

definition minor_mat :: "mat \<Rightarrow> nat \<Rightarrow> nat \<Rightarrow> mat" where
  "minor_mat A i j = map (\<lambda>r. take j r @ drop (Suc j) r) (take i A @ drop (Suc i) A)"

primrec det_n :: "nat \<Rightarrow> mat \<Rightarrow> real" where
  "det_n 0 A = 1"
| "det_n (Suc n) A =
     (\<Sum>j\<leftarrow>[0..<Suc n]. (- 1) ^ j * (A ! 0 ! j) * det_n n (minor_mat A 0 j))"

definition det :: "mat \<Rightarrow> real" where
  "det A = det_n (length A) A"

text \<open>
  \<^verbatim>\<open>numpy.linalg.slogdet\<close>: the sign of the determinant and the logarithm of its absolute
  value. For a singular matrix NumPy returns \<^verbatim>\<open>(0, -inf)\<close>, which is outside the model.
\<close>

definition np_slogdet :: "mat \<Rightarrow> py_error + (real \<times> real)" where
  "np_slogdet A =
     (if is_matrix (length A) (length A) A then Inr (sgn (det A), ln \<bar>det A\<bar>)
      else Inl LinAlgError)"

text \<open>\<^verbatim>\<open>numpy.linalg.inv\<close>: the inverse, here by cofactors.\<close>

definition np_inv :: "mat \<Rightarrow> py_error + mat" where
  "np_inv A =
     (let N = length A
      in if \<not> is_matrix N N A \<or> det A = 0 then Inl LinAlgError
         else Inr (map (\<lambda>i. map (\<lambda>j. (- 1) ^ (i + j) * det (minor_mat A j i) / det A) [0..<N])
                       [0..<N]))"

text \<open>
  \<^verbatim>\<open>numpy.linalg.cholesky\<close>: the lower-triangular \<open>L\<close> with positive diagonal and
  \<open>L L\<^sup>T = A\<close>, computed row by row from the lower triangle of \<open>A\<close>; it raises when a
  pivot is not positive. \<open>chol_off a L j\<close> holds the first \<open>j\<close> entries of the row computed
  from the row \<open>a\<close> of \<open>A\<close> and the rows \<open>L\<close> before it.
\<close>

primrec chol_off :: "vec \<Rightarrow> mat \<Rightarrow> nat \<Rightarrow> vec" where
  "chol_off a L 0 = []"
| "chol_off a L (Suc j) =
     (let r = chol_off a L j in r @ [(a ! j - dot r (L ! j)) / (L ! j ! j)])"

definition chol_row :: "vec \<Rightarrow> mat \<Rightarrow> nat \<Rightarrow> py_error + vec" where
  "chol_row a L i =
     (let r = chol_off a L i; s = a ! i - dot r r
      in if 0 < s then Inr (r @ [sqrt s]) else Inl LinAlgError)"

primrec chol_rows :: "mat \<Rightarrow> nat \<Rightarrow> py_error + mat" where
  "chol_rows A 0 = Inr []"
| "chol_rows A (Suc k) =
     (case chol_rows A k of Inl e \<Rightarrow> Inl e
      | Inr L \<Rightarrow> (case chol_row (A ! k) L k of Inl e \<Rightarrow> Inl e | Inr r \<Rightarrow> Inr (L @ [r])))"

definition np_cholesky :: "mat \<Rightarrow> py_error + mat" where
  "np_cholesky A =
     (let N = length A
      in if \<not> is_matrix N N A then Inl LinAlgError
         else (case chol_rows A N of Inl e \<Rightarrow> Inl e
               | Inr L \<Rightarrow> Inr (map (\<lambda>r. take N (r @ replicate N 0)) L)))"

text \<open>Arithmetic and comparison of Python values: \<^verbatim>\<open>None\<close> in an operand raises.\<close>

fun py_add :: "pyval \<Rightarrow> pyval \<Rightarrow> py_error + pyval" where
  "py_add (PyFloat a) (PyFloat b) = Inr (PyFloat (a + b))"
| "py_add _ _ = Inl TypeError"

fun py_sub :: "pyval \<Rightarrow> pyval \<Rightarrow> py_error + pyval" where
  "py_sub (PyFloat a) (PyFloat b) = Inr (PyFloat (a - b))"
| "py_sub _ _ = Inl TypeError"

fun py_gt :: "pyval \<Rightarrow> real \<Rightarrow> py_error + bool" where
  "py_gt (PyFloat a) b = Inr (a > b)"
| "py_gt PyNone b = Inl TypeError"

text \<open>\<^verbatim>\<open>a / b\<close> for two Python integers.\<close>

definition py_truediv :: "int \<Rightarrow> int \<Rightarrow> py_error + real" where
  "py_truediv a b = (if b = 0 then Inl ZeroDivisionError else Inr (real_of_int a / real_of_int b))"

text \<open>
  The global generator of \<^verbatim>\<open>numpy.random\<close> is a deterministic machine over a hidden
  state. Its algorithm is not part of the program, so the program is modelled over any such
  machine: \<open>rand_seed\<close> is \<^verbatim>\<open>seed(k)\<close> (the new state depends on \<open>k\<close> alone, and a \<open>k\<close>
  out of range raises), \<open>rand_choice s N size\<close> is \<^verbatim>\<open>choice(N, size=size, replace=False)\<close>,
  \<open>rand_normal s n\<close> is \<^verbatim>\<open>normal(0, 1, (n,))\<close> and \<open>rand_random\<close> is \<^verbatim>\<open>random()\<close>; each
  draw returns its value and the next state.
\<close>

record 'st np_random =
  rand_seed :: "int \<Rightarrow> py_error + 'st"
  rand_choice :: "'st \<Rightarrow> int \<Rightarrow> int \<Rightarrow> (py_error + int list) \<times> 'st"
  rand_normal :: "'st \<Rightarrow> nat \<Rightarrow> vec \<times> 'st"
  rand_random :: "'st \<Rightarrow> real \<times> 'st"

text \<open>
  A small generator over a counter, to run the program on concrete inputs: uniform draws
  \<open>1/10, 2/10, \<dots>\<close>, \<open>normal\<close> draws from \<open>0, 1, -1\<close>, and a choice that takes consecutive
  indices from the counter on.
\<close>

definition counter_rng :: "nat np_random" where
  "counter_rng =
     \<lparr> rand_seed = (\<lambda>k. if 0 \<le> k \<and> k < 2 ^ 32 then Inr (nat k) else Inl ValueError),
       rand_choice = (\<lambda>s N size.
          if 0 \<le> size \<and> size \<le> N
          then (Inr (map (\<lambda>i. (int s + int i) mod N) [0..<nat size]), Suc s)
          else (Inl ValueError, s)),
       rand_normal = (\<lambda>s n. (map (\<lambda>i. [0, 1, - 1] ! ((s + i) mod 3)) [0..<n], s + n)),
       rand_random = (\<lambda>s. ((1 + real (s mod 9)) / 10, Suc s)) \<rparr>"

section \<open>Subsampling\<close>

text \<open>
  \<^verbatim>\<open>
  def subsample(N, factor, seed=None):
      assert factor>=1, 'Subsampling factor must be greater than or equal to one.'
      N_sub = int(np.ceil(N / factor))
      if seed: np.random.seed(seed)
      idx = np.random.choice(N, size=N_sub, replace=False)
      return idx
  \<close>
  The seed is \<^verbatim>\<open>None\<close> or an integer; \<^verbatim>\<open>None\<close> and 0 are false. The function returns
  its result, or the exception, and the state it leaves the generator in.
\<close>

definition truthy :: "int option \<Rightarrow> bool" where
  "truthy seed = (case seed of None \<Rightarrow> False | Some k \<Rightarrow> k \<noteq> 0)"

definition subsample ::
  "'st np_random \<Rightarrow> int \<Rightarrow> real \<Rightarrow> int option \<Rightarrow> 'st \<Rightarrow> (py_error + int list) \<times> 'st" where
  "subsample R N factor seed s =
     (if \<not> factor \<ge> 1 then (Inl AssertionError, s)
      else let N_sub = \<lceil>real_of_int N / factor\<rceil>
           in (case (if truthy seed then rand_seed R (the seed) else Inr s) of
                 Inl e \<Rightarrow> (Inl e, s)
               | Inr s1 \<Rightarrow> rand_choice R s1 N N_sub))"

section \<open>Density functions\<close>

text \<open>
  \<^verbatim>\<open>
  def log_prior(u, K_inverse):
      d = u.shape[0]
      mahalanobis = u.T @ K_inverse @ u
      sign, logdetK_inv = np.linalg.slogdet(K_inverse)
      logdetK = -logdetK_inv
      log_pdf = - 0.5 * mahalanobis - 0.5 * logdetK - 0.5 * d * np.log(2 * np.pi)
      return log_pdf
  \<close>
\<close>

definition log_prior :: "vec \<Rightarrow> mat \<Rightarrow> py_error + pyval" where
  "log_prior u K_inverse =
     (let d = length u
      in case np_vecmat u K_inverse of Inl e \<Rightarrow> Inl e
         | Inr uK \<Rightarrow>
        (case np_dot uK u of Inl e \<Rightarrow> Inl e
         | Inr mahalanobis \<Rightarrow>
        (case np_slogdet K_inverse of Inl e \<Rightarrow> Inl e
         | Inr (sign, logdetK_inv) \<Rightarrow>
            let logdetK = - logdetK_inv;
                log_pdf = - 0.5 * mahalanobis - 0.5 * logdetK - 0.5 * real d * ln (2 * pi)
            in Inr (PyFloat log_pdf))))"

text \<open>
  \<^verbatim>\<open>
  def log_continuous_likelihood(u, v, G):
      v_true = G @ u
      noise = v - v_true
      mahalanobis = np.sum(noise**2)
      n = v.shape[0]
      log_pdf = -0.5 * mahalanobis - 0.5 * n * np.log(2 * np.pi)
      return log_pdf
  \<close>
\<close>

definition log_continuous_likelihood :: "vec \<Rightarrow> vec \<Rightarrow> mat \<Rightarrow> py_error + pyval" where
  "log_continuous_likelihood u v G =
     (case np_matvec G u of Inl e \<Rightarrow> Inl e
      | Inr v_true \<Rightarrow>
     (case np_broadcast (-) v v_true of Inl e \<Rightarrow> Inl e
      | Inr noise \<Rightarrow>
         let mahalanobis = sum_list (map (\<lambda>x. x ^ 2) noise);
             n = length v;
             log_pdf = - 0.5 * mahalanobis - 0.5 * real n * ln (2 * pi)
         in Inr (PyFloat log_pdf)))"

text \<open>
  \<^verbatim>\<open>
  def log_probit_likelihood(u, t, G):
      phi = norm.cdf(G @ u)
      return # TODO: Return likelihood p(t|u)

  def log_poisson_likelihood(u, c, G):
      return # TODO: Return likelihood p(c|u)
  \<close>
  \<^verbatim>\<open>phi\<close> is computed and dropped (\<^verbatim>\<open>norm.cdf\<close> is defined on every float), and a bare
  \<^verbatim>\<open>return\<close> returns \<^verbatim>\<open>None\<close>.
\<close>

definition log_probit_likelihood :: "vec \<Rightarrow> vec \<Rightarrow> mat \<Rightarrow> py_error + pyval" where
  "log_probit_likelihood u t G =
     (case np_matvec G u of Inl e \<Rightarrow> Inl e | Inr Gu \<Rightarrow> Inr PyNone)"

definition log_poisson_likelihood :: "vec \<Rightarrow> vec \<Rightarrow> mat \<Rightarrow> py_error + pyval" where
  "log_poisson_likelihood u c G = Inr PyNone"

text \<open>
  \<^verbatim>\<open>
  def log_continuous_target(u, y, K_inverse, G):
      return log_prior(u, K_inverse) + log_continuous_likelihood(u, y, G)
  \<close>
  and the same for the probit and the Poisson likelihood. The prior is evaluated first.
\<close>

definition log_continuous_target :: "vec \<Rightarrow> vec \<Rightarrow> mat \<Rightarrow> mat \<Rightarrow> py_error + pyval" where
  "log_continuous_target u y K_inverse G =
     (case log_prior u K_inverse of Inl e \<Rightarrow> Inl e
      | Inr p \<Rightarrow>
     (case log_continuous_likelihood u y G of Inl e \<Rightarrow> Inl e | Inr l \<Rightarrow> py_add p l))"

definition log_probit_target :: "vec \<Rightarrow> vec \<Rightarrow> mat \<Rightarrow> mat \<Rightarrow> py_error + pyval" where
  "log_probit_target u t K_inverse G =
     (case log_prior u K_inverse of Inl e \<Rightarrow> Inl e
      | Inr p \<Rightarrow>
     (case log_probit_likelihood u t G of Inl e \<Rightarrow> Inl e | Inr l \<Rightarrow> py_add p l))"

definition log_poisson_target :: "vec \<Rightarrow> vec \<Rightarrow> mat \<Rightarrow> mat \<Rightarrow> py_error + pyval" where
  "log_poisson_target u c K_inverse G =
     (case log_prior u K_inverse of Inl e \<Rightarrow> Inl e
      | Inr p \<Rightarrow>
     (case log_poisson_likelihood u c G of Inl e \<Rightarrow> Inl e | Inr l \<Rightarrow> py_add p l))"

section \<open>The samplers\<close>

text \<open>
  \<^verbatim>\<open>for i in range(n): body\<close> with a body that does not read \<open>i\<close>: \<open>n\<close> runs of the body on
  the loop's variables, stopping at the first exception.
\<close>

primrec for_range :: "nat \<Rightarrow> ('s \<Rightarrow> py_error + 's) \<Rightarrow> 's \<Rightarrow> py_error + 's" where
  "for_range 0 body st = Inr st"
| "for_range (Suc n) body st =
     (case body st of Inl e \<Rightarrow> Inl e | Inr st' \<Rightarrow> for_range n body st')"

text \<open>
  Both samplers start with the same four lines:
  \<^verbatim>\<open>
      N = K.shape[0]
      Kc = np.linalg.cholesky(K + 1e-6 * np.eye(N))
      Kc_inverse = np.linalg.inv(Kc)
      K_inverse = Kc_inverse.T @ Kc_inverse
  \<close>
  \<open>prior_factors K\<close> is the pair \<open>(Kc, K_inverse)\<close> they compute.
\<close>

definition prior_factors :: "mat \<Rightarrow> py_error + (mat \<times> mat)" where
  "prior_factors K =
     (let N = length K
      in case np_add_mat K (mat_scale (1 / 10 ^ 6) (np_eye N)) of Inl e \<Rightarrow> Inl e
         | Inr Kj \<Rightarrow>
        (case np_cholesky Kj of Inl e \<Rightarrow> Inl e
         | Inr Kc \<Rightarrow>
        (case np_inv Kc of Inl e \<Rightarrow> Inl e
         | Inr Kc_inverse \<Rightarrow>
            let K_inverse = matmul (transpose_mat Kc_inverse) Kc_inverse
            in Inr (Kc, K_inverse))))"

text \<open>
  The variables of a sampler's loop: the chain \<open>X\<close>, the count \<open>acc\<close>, \<open>u_prev\<close>, the cached
  \<open>lt_prev\<close> (\<open>ll_prev\<close> in \<open>pcn\<close>) and the state of the generator.
\<close>

type_synonym 'st loop_vars = "vec list \<times> int \<times> vec \<times> pyval \<times> 'st"

text \<open>
  The body of the loop of \<open>grw\<close>:
  \<^verbatim>\<open>
        zeta = Kc @ np.random.normal(0, 1, u_prev.shape)
        u_new = u_prev + beta * zeta
        lt_new = log_target(u_new, data, K_inverse, G)
        log_alpha = lt_new - lt_prev
        log_u = np.log(np.random.random())
        accept = log_alpha > log_u
        if accept:
            acc += 1
            X.append(u_new)
            u_prev = u_new
            lt_prev = lt_new
        else:
            X.append(u_prev)
  \<close>
\<close>

definition grw_step ::
  "'st np_random \<Rightarrow> (vec \<Rightarrow> vec \<Rightarrow> mat \<Rightarrow> mat \<Rightarrow> py_error + pyval) \<Rightarrow> vec \<Rightarrow> mat \<Rightarrow> mat \<Rightarrow> mat
    \<Rightarrow> real \<Rightarrow> 'st loop_vars \<Rightarrow> py_error + 'st loop_vars" where
  "grw_step R log_target data K_inverse G Kc beta st =
     (case st of (X, acc, u_prev, lt_prev, s) \<Rightarrow>
     (case rand_normal R s (length u_prev) of (z, s1) \<Rightarrow>
     (case np_matvec Kc z of Inl e \<Rightarrow> Inl e
      | Inr zeta \<Rightarrow>
     (case np_broadcast (+) u_prev (map ((*) beta) zeta) of Inl e \<Rightarrow> Inl e
      | Inr u_new \<Rightarrow>
     (case log_target u_new data K_inverse G of Inl e \<Rightarrow> Inl e
      | Inr lt_new \<Rightarrow>
     (case py_sub lt_new lt_prev of Inl e \<Rightarrow> Inl e
      | Inr log_alpha \<Rightarrow>
     (case rand_random R s1 of (U, s2) \<Rightarrow>
        let log_u = ln U
        in (case py_gt log_alpha log_u of Inl e \<Rightarrow> Inl e
            | Inr accept \<Rightarrow>
                if accept then Inr (X @ [u_new], acc + 1, u_new, lt_new, s2)
                else Inr (X @ [u_prev], acc, u_prev, lt_prev, s2)))))))))"

text \<open>
  \<^verbatim>\<open>
  def grw(log_target, u0, data, K, G, n_iters, beta):
      X = []
      acc = 0
      u_prev = u0
      ...
      lt_prev = log_target(u_prev, data, K_inverse, G)
      for i in range(n_iters):
          ...
      return X, acc / n_iters
  \<close>
  \<open>n_iters\<close> is a Python integer; \<^verbatim>\<open>range\<close> of a negative number is empty.
\<close>

definition grw ::
  "'st np_random \<Rightarrow> (vec \<Rightarrow> vec \<Rightarrow> mat \<Rightarrow> mat \<Rightarrow> py_error + pyval) \<Rightarrow> vec \<Rightarrow> vec \<Rightarrow> mat \<Rightarrow> mat
    \<Rightarrow> int \<Rightarrow> real \<Rightarrow> 'st \<Rightarrow> py_error + ((vec list \<times> real) \<times> 'st)" where
  "grw R log_target u0 data K G n_iters beta s =
     (case prior_factors K of Inl e \<Rightarrow> Inl e
      | Inr (Kc, K_inverse) \<Rightarrow>
     (case log_target u0 data K_inverse G of Inl e \<Rightarrow> Inl e
      | Inr lt_prev \<Rightarrow>
     (case for_range (nat n_iters) (grw_step R log_target data K_inverse G Kc beta)
             ([], 0, u0, lt_prev, s) of Inl e \<Rightarrow> Inl e
      | Inr (X, acc, u_prev, lt_prev, s') \<Rightarrow>
     (case py_truediv acc n_iters of Inl e \<Rightarrow> Inl e
      | Inr rate \<Rightarrow> Inr ((X, rate), s')))))"

text \<open>
  The body of the loop of \<open>pcn\<close>:
  \<^verbatim>\<open>
        zeta = Kc @ np.random.normal(0, 1, u_prev.shape)
        u_new = np.sqrt(1 - beta**2) * u_prev + beta * zeta
        ll_new = log_likelihood(u_new, y, G)
        log_alpha = ll_new - ll_prev
        log_u = np.log(np.random.random())
        accept = log_alpha > log_u
        if accept:
            acc += 1
            X.append(u_new)
            u_prev = u_new
            ll_prev = ll_new
        else:
            X.append(u_prev)
  \<close>
  For \<open>beta\<^sup>2 > 1\<close> NumPy's square root is \<^verbatim>\<open>nan\<close>, with a warning and no exception; the
  values of the model are those of the program for \<open>beta\<^sup>2 \<le> 1\<close>.
\<close>

definition pcn_step ::
  "'st np_random \<Rightarrow> (vec \<Rightarrow> vec \<Rightarrow> mat \<Rightarrow> py_error + pyval) \<Rightarrow> vec \<Rightarrow> mat \<Rightarrow> mat
    \<Rightarrow> real \<Rightarrow> 'st loop_vars \<Rightarrow> py_error + 'st loop_vars" where
  "pcn_step R log_likelihood y G Kc beta st =
     (case st of (X, acc, u_prev, ll_prev, s) \<Rightarrow>
     (case rand_normal R s (length u_prev) of (z, s1) \<Rightarrow>
     (case np_matvec Kc z of Inl e \<Rightarrow> Inl e
      | Inr zeta \<Rightarrow>
     (case np_broadcast (+) (map ((*) (sqrt (1 - beta ^ 2))) u_prev) (map ((*) beta) zeta) of
        Inl e \<Rightarrow> Inl e
      | Inr u_new \<Rightarrow>
     (case log_likelihood u_new y G of Inl e \<Rightarrow> Inl e
      | Inr ll_new \<Rightarrow>
     (case py_sub ll_new ll_prev of Inl e \<Rightarrow> Inl e
      | Inr log_alpha \<Rightarrow>
     (case rand_random R s1 of (U, s2) \<Rightarrow>
        let log_u = ln U
        in (case py_gt log_alpha log_u of Inl e \<Rightarrow> Inl e
            | Inr accept \<Rightarrow>
                if accept then Inr (X @ [u_new], acc + 1, u_new, ll_new, s2)
                else Inr (X @ [u_prev], acc, u_prev, ll_prev, s2)))))))))"

text \<open>
  \<^verbatim>\<open>
  def pcn(log_likelihood, u0, y, K, G, n_iters, beta):
      X = []
      acc = 0
      u_prev = u0
      ...
      ll_prev = log_likelihood(u_prev, y, G)
      for i in range(n_iters):
          ...
      return X, acc / n_iters
  \<close>
  \<open>K_inverse\<close> is computed and not used.
\<close>

definition pcn ::
  "'st np_random \<Rightarrow> (vec \<Rightarrow> vec \<Rightarrow> mat \<Rightarrow> py_error + pyval) \<Rightarrow> vec \<Rightarrow> vec \<Rightarrow> mat \<Rightarrow> mat
    \<Rightarrow> int \<Rightarrow> real \<Rightarrow> 'st \<Rightarrow> py_error + ((vec list \<times> real) \<times> 'st)" where
  "pcn R log_likelihood u0 y K G n_iters beta s =
     (case prior_factors K of Inl e \<Rightarrow> Inl e
      | Inr (Kc, K_inverse) \<Rightarrow>
     (case log_likelihood u0 y G of Inl e \<Rightarrow> Inl e
      | Inr ll_prev \<Rightarrow>
     (case for_range (nat n_iters) (pcn_step R log_likelihood y G Kc beta)
             ([], 0, u0, ll_prev, s) of Inl e \<Rightarrow> Inl e
      | Inr (X, acc, u_prev, ll_prev, s') \<Rightarrow>
     (case py_truediv acc n_iters of Inl e \<Rightarrow> Inl e
      | Inr rate \<Rightarrow> Inr ((X, rate), s')))))"

text \<open>
  What holds of the loop's variables after \<open>k\<close> iterations on a field of \<open>N\<close> points: the
  chain has \<open>k\<close> entries, the count lies between 0 and \<open>k\<close>, the current state has length
  \<open>N\<close> and is the last entry of the chain, and the cached density is a float.
\<close>

definition chain_inv :: "nat \<Rightarrow> nat \<Rightarrow> 'st loop_vars \<Rightarrow> bool" where
  "chain_inv N k st =
     (case st of (X, acc, u, l, s) \<Rightarrow>
        length X = k \<and> 0 \<le> acc \<and> acc \<le> int k \<and> length u = N \<and> (\<exists>v. l = PyFloat v)
        \<and> (0 < k \<longrightarrow> last X = u))"

text \<open>The quadratic form \<open>u\<^sup>T A u\<close> of the specification, as a double sum.\<close>

definition quadratic_form :: "vec \<Rightarrow> mat \<Rightarrow> real" where
  "quadratic_form u A =
     (\<Sum>i\<leftarrow>[0..<length u]. \<Sum>j\<leftarrow>[0..<length u]. u ! i * (A ! i ! j) * u ! j)"

section \<open>Properties of the kernel\<close>

lemma minkowski_is_euclidean: "minkowski_distance a b = euclidean a b"
proof -
  have "(\<lambda>(p :: real, q). \<bar>q - p\<bar> ^ 2) = (\<lambda>(p, q). (p - q) ^ 2)"
    by (auto simp: fun_eq_iff power2_commute)
  then show ?thesis
    by (simp only: minkowski_distance_def euclidean_def)
qed

lemma euclidean_sym: "euclidean a b = euclidean b a"
proof -
  have "(\<Sum>(p, q)\<leftarrow>zip a b. (p - q) ^ 2) = (\<Sum>(p, q)\<leftarrow>zip b a. (p - q) ^ 2)"
  proof (induction a arbitrary: b)
    case Nil
    show ?case by simp
  next
    case (Cons x a)
    show ?case
      by (cases b) (simp_all add: Cons.IH power2_commute)
  qed
  then show ?thesis
    by (simp add: euclidean_def)
qed

lemma euclidean_self: "euclidean a a = 0"
proof -
  have "(\<Sum>(p, q)\<leftarrow>zip a a. (p - q) ^ 2) = 0"
    by (induction a) simp_all
  then show ?thesis
    by (simp add: euclidean_def)
qed

lemma GaussianKernel_entry:
  assumes "i < length x" and "j < length x"
  shows "GaussianKernel x l ! i ! j = exp (- ((euclidean (x ! i) (x ! j)) ^ 2) / (2 * l ^ 2))"
  using assms
  by (simp add: GaussianKernel_def distance_matrix_def minkowski_is_euclidean)

text \<open>
  C8. For a coordinate set \<open>x\<close> of \<open>N\<close> points and a length-scale \<open>l > 0\<close>,
  \<open>GaussianKernel x l\<close> is the \<open>N \<times> N\<close> matrix with entries
  \<open>exp (- d(x\<^sub>i, x\<^sub>j)\<^sup>2 / (2 l\<^sup>2))\<close>, \<open>d\<close> the Euclidean distance; it is symmetric and its
  diagonal is 1.
\<close>

theorem GaussianKernel_spec:
  assumes "0 < l" and "i < length x" and "j < length x"
  shows "length (GaussianKernel x l) = length x
    \<and> length (GaussianKernel x l ! i) = length x
    \<and> GaussianKernel x l ! i ! j = exp (- ((euclidean (x ! i) (x ! j)) ^ 2) / (2 * l ^ 2))
    \<and> GaussianKernel x l ! i ! j = GaussianKernel x l ! j ! i
    \<and> GaussianKernel x l ! i ! i = 1"
proof -
  have len: "length (GaussianKernel x l) = length x"
    by (simp add: GaussianKernel_def distance_matrix_def)
  have row: "length (GaussianKernel x l ! i) = length x"
    using assms(2) by (simp add: GaussianKernel_def distance_matrix_def)
  have sym: "GaussianKernel x l ! i ! j = GaussianKernel x l ! j ! i"
    using assms(2,3) by (simp add: GaussianKernel_entry euclidean_sym [of "x ! i"])
  have diag: "GaussianKernel x l ! i ! i = 1"
    using assms(2) by (simp add: GaussianKernel_entry euclidean_self)
  show ?thesis
    using len row sym diag GaussianKernel_entry [OF assms(2,3)] by simp
qed

theorem GaussianKernel_spec_witness:
  "GaussianKernel [[0, 0], [3, 4]] 5 ! 0 ! 1 = exp (- 1 / 2)
    \<and> GaussianKernel [[0, 0], [3, 4]] 5 ! 0 ! 1 = GaussianKernel [[0, 0], [3, 4]] 5 ! 1 ! 0
    \<and> GaussianKernel [[0, 0], [3, 4]] 5 ! 0 ! 0 = 1
    \<and> length (GaussianKernel [[0, 0], [3, 4]] 5) = 2"
proof -
  have e: "euclidean [0, 0] [3, 4] = 5"
  proof -
    have "sqrt 25 = sqrt (5 ^ 2)" by simp
    then show ?thesis
      unfolding euclidean_def by (simp del: real_sqrt_four)
  qed
  show ?thesis
    using GaussianKernel_spec [of 5 0 "[[0, 0], [3, 4]]" 1] e by simp
qed

section \<open>Evaluating the NumPy operations\<close>

lemmas np_defs = np_cholesky_def chol_row_def is_matrix_def np_inv_def det_def minor_mat_def
  np_add_mat_def ncols_def bc_ok_def bc_dim_def bc_ix_def mat_scale_def np_eye_def dot_def
  matmul_def transpose_mat_def column_def np_matvec_def np_vecmat_def np_dot_def np_broadcast_def
  np_slogdet_def py_truediv_def

text \<open>The kernel of a single point is \<open>[[1]]\<close>; its factor and inverse, with the jitter.\<close>

lemma prior_factors_unit:
  "prior_factors [[1]] = Inr ([[sqrt (1000001 / 1000000)]], [[1000000 / 1000001]])"
  by (simp add: prior_factors_def np_defs)

lemma log_continuous_likelihood_unit:
  "log_continuous_likelihood [0] [0] [[1]] = Inr (PyFloat (- (ln (2 * pi) / 2)))"
  by (simp add: log_continuous_likelihood_def np_defs)

lemma log_continuous_target_unit:
  "log_continuous_target [0] [0] [[1000000 / 1000001]] [[1]]
     = Inr (PyFloat (ln (1000000 / 1000001) / 2 - ln (2 * pi)))"
  by (simp add: log_continuous_target_def log_prior_def log_continuous_likelihood_def np_defs)

section \<open>Subsampling and the seed\<close>

text \<open>
  C10. \<open>subsample\<close> seeds the generator only when the seed is truthy. With a nonzero seed
  the result does not depend on the state the generator was in, so two calls return the same
  indices; with seed 0 the call is the call with no seed, and returns whatever the current
  state of the generator yields.
\<close>

theorem subsample_seed:
  "(k \<noteq> 0 \<longrightarrow> fst (subsample R N factor (Some k) s1) = fst (subsample R N factor (Some k) s2))
   \<and> subsample R N factor (Some 0) s = subsample R N factor None s
   \<and> (1 \<le> factor \<longrightarrow>
        subsample R N factor (Some 0) s = rand_choice R s N \<lceil>real_of_int N / factor\<rceil>)"
  by (simp add: subsample_def truthy_def split: sum.splits)

text \<open>
  With the counter generator: seed 3 gives the same indices from the states 0 and 4, seed 0
  gives different ones.
\<close>

theorem subsample_seed_witness:
  "fst (subsample counter_rng 10 2 (Some 3) 0) = fst (subsample counter_rng 10 2 (Some 3) 4)
   \<and> fst (subsample counter_rng 10 2 (Some 3) 0) = Inr [3, 4, 5, 6, 7]
   \<and> subsample counter_rng 10 2 (Some 0) 4 = subsample counter_rng 10 2 None 4
   \<and> fst (subsample counter_rng 10 2 (Some 0) 0) = Inr [0, 1, 2, 3, 4]
   \<and> fst (subsample counter_rng 10 2 (Some 0) 4) = Inr [4, 5, 6, 7, 8]"
proof -
  have a: "fst (subsample counter_rng 10 2 (Some 3) 0) = Inr [3, 4, 5, 6, 7]"
    by (simp add: subsample_def truthy_def counter_rng_def upt_rec)
  have b: "fst (subsample counter_rng 10 2 (Some 0) 0) = Inr [0, 1, 2, 3, 4]"
    by (simp add: subsample_def truthy_def counter_rng_def upt_rec)
  have c: "fst (subsample counter_rng 10 2 (Some 0) 4) = Inr [4, 5, 6, 7, 8]"
    by (simp add: subsample_def truthy_def counter_rng_def upt_rec)
  show ?thesis
    using subsample_seed [of 3 counter_rng 10 2 0 4 4] a b c by simp
qed

section \<open>The log-prior\<close>

lemma ncols_square: "is_matrix d d A \<Longrightarrow> ncols A = d"
  by (cases A) (auto simp: is_matrix_def ncols_def)

lemma dot_sum: "length a = length b \<Longrightarrow> dot a b = (\<Sum>i = 0..<length a. a ! i * b ! i)"
  by (simp add: dot_def sum_list_sum_nth)

lemma mahalanobis_quadratic_form:
  assumes "is_matrix (length u) (length u) A"
  shows "np_vecmat u A = Inr (map (\<lambda>j. dot u (column A j)) [0..<length u])"
    and "np_dot (map (\<lambda>j. dot u (column A j)) [0..<length u]) u = Inr (quadratic_form u A)"
proof -
  let ?d = "length u"
  show "np_vecmat u A = Inr (map (\<lambda>j. dot u (column A j)) [0..<?d])"
    using assms by (simp add: np_vecmat_def ncols_square)
  have len: "length A = ?d"
    using assms by (simp add: is_matrix_def)
  have col: "dot u (column A j) = (\<Sum>i = 0..<?d. u ! i * (A ! i ! j))" for j
    using len by (simp add: dot_sum column_def)
  have "dot (map (\<lambda>j. dot u (column A j)) [0..<?d]) u
      = (\<Sum>j = 0..<?d. (\<Sum>i = 0..<?d. u ! i * (A ! i ! j)) * u ! j)"
    by (simp add: dot_sum col)
  also have "\<dots> = (\<Sum>j = 0..<?d. \<Sum>i = 0..<?d. u ! i * (A ! i ! j) * u ! j)"
    by (simp add: sum_distrib_right)
  also have "\<dots> = (\<Sum>i = 0..<?d. \<Sum>j = 0..<?d. u ! i * (A ! i ! j) * u ! j)"
    by (rule sum.swap)
  also have "\<dots> = quadratic_form u A"
    by (simp add: quadratic_form_def interv_sum_list_conv_sum_set_nat)
  finally show "np_dot (map (\<lambda>j. dot u (column A j)) [0..<?d]) u = Inr (quadratic_form u A)"
    by (simp add: np_dot_def)
qed

lemma log_prior_value:
  assumes "is_matrix (length u) (length u) K_inverse"
  shows "log_prior u K_inverse =
    Inr (PyFloat (- 0.5 * quadratic_form u K_inverse - 0.5 * (- ln \<bar>det K_inverse\<bar>)
                  - 0.5 * real (length u) * ln (2 * pi)))"
proof -
  have "length K_inverse = length u"
    using assms by (simp add: is_matrix_def)
  then have "np_slogdet K_inverse = Inr (sgn (det K_inverse), ln \<bar>det K_inverse\<bar>)"
    using assms by (simp add: np_slogdet_def)
  then show ?thesis
    by (simp add: log_prior_def mahalanobis_quadratic_form [OF assms])
qed

text \<open>
  C6. For a vector \<open>u\<close> of length \<open>d\<close> and a \<open>d \<times> d\<close> matrix \<open>K_inverse\<close> (with a
  determinant other than 0, so that its logarithm is finite), \<open>log_prior\<close> returns
  \<open>- \<onehalf> u\<^sup>T K_inverse u - \<onehalf> log det K - (d/2) log (2 \<pi>)\<close>, where \<open>log det K\<close> is the
  negation of the log-determinant that \<open>slogdet\<close> returns for \<open>K_inverse\<close>; for a positive
  determinant that is the logarithm of \<open>1 / det K_inverse\<close>.
\<close>

theorem log_prior_formula:
  assumes "is_matrix (length u) (length u) K_inverse" and "det K_inverse \<noteq> 0"
  shows "np_slogdet K_inverse = Inr (sgn (det K_inverse), ln \<bar>det K_inverse\<bar>)
    \<and> log_prior u K_inverse =
        Inr (PyFloat (- (1 / 2) * quadratic_form u K_inverse - (1 / 2) * (- ln \<bar>det K_inverse\<bar>)
                      - real (length u) / 2 * ln (2 * pi)))
    \<and> (0 < det K_inverse \<longrightarrow> - ln \<bar>det K_inverse\<bar> = ln (1 / det K_inverse))"
proof -
  have "length K_inverse = length u"
    using assms(1) by (simp add: is_matrix_def)
  then have "np_slogdet K_inverse = Inr (sgn (det K_inverse), ln \<bar>det K_inverse\<bar>)"
    using assms(1) by (simp add: np_slogdet_def)
  moreover have "0 < det K_inverse \<longrightarrow> - ln \<bar>det K_inverse\<bar> = ln (1 / det K_inverse)"
    by (simp add: ln_div)
  ultimately show ?thesis
    using log_prior_value [OF assms(1)] by simp
qed

theorem log_prior_formula_witness:
  "log_prior [1, 2] [[2, 0], [0, 1]] = Inr (PyFloat (- 3 + ln 2 / 2 - ln (2 * pi)))"
proof -
  have q: "quadratic_form [1, 2] [[2, 0], [0, 1]] = 6"
    by (simp add: quadratic_form_def upt_rec numeral_2_eq_2)
  have d: "det [[2, 0], [0, 1]] = 2"
    by (simp add: det_def minor_mat_def numeral_2_eq_2)
  have m: "is_matrix (length [1, 2 :: real]) (length [1, 2 :: real]) [[2, 0], [0, 1]]"
    by (simp add: is_matrix_def)
  show ?thesis
    using log_prior_formula [OF m] q d by simp
qed

text \<open>
  C7, as stated, fails: for \<open>K_inverse = [[-1]]\<close> the sign that \<open>slogdet\<close> returns is \<open>-1\<close>,
  and \<open>log_prior\<close> returns a value.
\<close>

theorem log_prior_sign_counterexample:
  "np_slogdet [[- 1]] = Inr (- 1, 0)
   \<and> log_prior [0] [[- 1]] = Inr (PyFloat (- (ln (2 * pi) / 2)))"
  by (simp add: log_prior_def np_defs)

text \<open>
  C7, amended. \<open>log_prior\<close> never reads the sign: when the determinant of \<open>K_inverse\<close> is
  negative the sign is \<open>-1\<close>, no exception is raised, and the value returned is computed from
  the logarithm of the absolute value of the determinant.
\<close>

theorem log_prior_ignores_sign:
  assumes "is_matrix (length u) (length u) K_inverse" and "det K_inverse < 0"
  shows "np_slogdet K_inverse = Inr (- 1, ln (- det K_inverse))
    \<and> log_prior u K_inverse =
        Inr (PyFloat (- (1 / 2) * quadratic_form u K_inverse + (1 / 2) * ln (- det K_inverse)
                      - real (length u) / 2 * ln (2 * pi)))"
proof -
  have "length K_inverse = length u"
    using assms(1) by (simp add: is_matrix_def)
  then have "np_slogdet K_inverse = Inr (- 1, ln (- det K_inverse))"
    using assms by (simp add: np_slogdet_def)
  then show ?thesis
    using log_prior_value [OF assms(1)] assms(2) by simp
qed

theorem log_prior_ignores_sign_witness:
  "np_slogdet [[1, 0], [0, - 2]] = Inr (- 1, ln 2)
   \<and> log_prior [1, 1] [[1, 0], [0, - 2]] = Inr (PyFloat (1 / 2 + ln 2 / 2 - ln (2 * pi)))"
proof -
  have q: "quadratic_form [1, 1] [[1, 0], [0, - 2]] = - 1"
    by (simp add: quadratic_form_def upt_rec numeral_2_eq_2)
  have d: "det [[1, 0], [0, - 2]] = - 2"
    by (simp add: det_def minor_mat_def numeral_2_eq_2)
  have m: "is_matrix (length [1, 1 :: real]) (length [1, 1 :: real]) [[1, 0], [0, - 2]]"
    by (simp add: is_matrix_def)
  show ?thesis
    using log_prior_ignores_sign [OF m] q d by simp
qed

section \<open>The placeholder likelihoods\<close>

text \<open>
  C4, as stated, fails: both placeholder likelihoods return \<^verbatim>\<open>None\<close> and raise nothing.
\<close>

theorem placeholder_likelihoods_counterexample:
  "log_probit_likelihood [0] [1] [[1]] = Inr PyNone
   \<and> log_poisson_likelihood [0] [3] [[1]] = Inr PyNone"
  by (simp add: log_probit_likelihood_def log_poisson_likelihood_def np_matvec_def is_matrix_def)

text \<open>
  C4, amended. \<open>log_poisson_likelihood\<close> returns \<^verbatim>\<open>None\<close>, and so does
  \<open>log_probit_likelihood\<close> when the shapes of \<open>G\<close> and \<open>u\<close> fit; the two targets built on
  them raise \<^verbatim>\<open>TypeError\<close> when they add that \<^verbatim>\<open>None\<close> to the log-prior.
\<close>

theorem placeholder_likelihoods:
  "log_poisson_likelihood u c G = Inr PyNone
   \<and> (np_matvec G u = Inr w \<longrightarrow> log_probit_likelihood u t G = Inr PyNone)
   \<and> (log_prior u K_inverse = Inr p \<longrightarrow> log_poisson_target u c K_inverse G = Inl TypeError)
   \<and> (log_prior u K_inverse = Inr p \<and> np_matvec G u = Inr w \<longrightarrow>
        log_probit_target u t K_inverse G = Inl TypeError)"
proof -
  have "py_add p PyNone = Inl TypeError"
    by (cases p) simp_all
  then show ?thesis
    by (simp add: log_poisson_likelihood_def log_probit_likelihood_def log_poisson_target_def
        log_probit_target_def)
qed

theorem placeholder_likelihoods_witness:
  "log_poisson_likelihood [0] [3] [[1]] = Inr PyNone
   \<and> log_probit_likelihood [0] [1] [[1]] = Inr PyNone
   \<and> log_poisson_target [0] [3] [[1]] [[1]] = Inl TypeError
   \<and> log_probit_target [0] [1] [[1]] [[1]] = Inl TypeError"
proof -
  have p: "log_prior [0] [[1]] = Inr (PyFloat (- (ln (2 * pi) / 2)))"
    by (simp add: log_prior_def np_defs)
  have m: "np_matvec [[1]] [0] = Inr [0]"
    by (simp add: np_defs)
  show ?thesis
    using placeholder_likelihoods [of "[0]" _ "[[1]]" "[0]" _ "[[1]]" "PyFloat (- (ln (2 * pi) / 2))"] p m
    by simp
qed

section \<open>The samplers with no iteration\<close>

text \<open>
  C9. With \<open>n_iters = 0\<close>, and inputs on which the lines before the loop raise nothing, both
  samplers run the body of the loop zero times and raise \<^verbatim>\<open>ZeroDivisionError\<close> at
  \<^verbatim>\<open>acc / n_iters\<close>.
\<close>

theorem zero_iterations:
  assumes "prior_factors K = Inr (Kc, K_inverse)"
    and "log_target u0 data K_inverse G = Inr lt"
    and "log_likelihood u0 y G = Inr ll"
  shows "for_range (nat 0) (grw_step R log_target data K_inverse G Kc beta) ([], 0, u0, lt, s)
           = Inr ([], 0, u0, lt, s)
    \<and> grw R log_target u0 data K G 0 beta s = Inl ZeroDivisionError
    \<and> for_range (nat 0) (pcn_step R log_likelihood y G Kc beta) ([], 0, u0, ll, s)
           = Inr ([], 0, u0, ll, s)
    \<and> pcn R log_likelihood u0 y K G 0 beta s = Inl ZeroDivisionError"
  using assms by (simp add: grw_def pcn_def py_truediv_def)

theorem zero_iterations_witness:
  "grw counter_rng log_continuous_target [0] [0] [[1]] [[1]] 0 (1 / 2) 0 = Inl ZeroDivisionError
   \<and> pcn counter_rng log_continuous_likelihood [0] [0] [[1]] [[1]] 0 (1 / 2) 0
       = Inl ZeroDivisionError"
  using zero_iterations [of "[[1]]" _ _ log_continuous_target "[0]" "[0]" "[[1]]" _
      log_continuous_likelihood "[0]" _ counter_rng "1 / 2" 0,
      OF prior_factors_unit log_continuous_target_unit log_continuous_likelihood_unit]
  by simp

section \<open>Shapes, one iteration, and the whole loop\<close>

lemma chol_rows_length: "chol_rows A k = Inr L \<Longrightarrow> length L = k"
  by (induction k arbitrary: L) (auto split: sum.splits)

lemma np_cholesky_shape:
  assumes "np_cholesky A = Inr L"
  shows "is_matrix (length A) (length A) L"
proof -
  from assms obtain L' where L': "chol_rows A (length A) = Inr L'"
    and L: "L = map (\<lambda>r. take (length A) (r @ replicate (length A) 0)) L'"
    by (auto simp: np_cholesky_def Let_def split: if_splits sum.splits)
  show ?thesis
    using chol_rows_length [OF L'] by (auto simp: L is_matrix_def list_all_iff)
qed

lemma np_add_mat_length: "np_add_mat A B = Inr C \<Longrightarrow> length C = bc_dim (length A) (length B)"
  by (auto simp: np_add_mat_def Let_def split: if_splits)

lemma prior_factors_cholesky:
  assumes "prior_factors K = Inr (Kc, K_inverse)"
  shows "\<exists>Kj. np_add_mat K (mat_scale (1 / 10 ^ 6) (np_eye (length K))) = Inr Kj
    \<and> np_cholesky Kj = Inr Kc"
  using assms by (auto simp: prior_factors_def Let_def split: sum.splits)

lemma prior_factors_shape:
  assumes "prior_factors K = Inr (Kc, K_inverse)"
  shows "is_matrix (length K) (length K) Kc"
proof -
  from prior_factors_cholesky [OF assms] obtain Kj
    where Kj: "np_add_mat K (mat_scale (1 / 10 ^ 6) (np_eye (length K))) = Inr Kj"
      and Kc: "np_cholesky Kj = Inr Kc"
    by blast
  have "length Kj = length K"
    using np_add_mat_length [OF Kj] by (simp add: mat_scale_def np_eye_def bc_dim_def)
  then show ?thesis
    using np_cholesky_shape [OF Kc] by simp
qed

lemma np_matvec_square:
  assumes "is_matrix N N Kc" and "length z = N"
  shows "np_matvec Kc z = Inr (map (\<lambda>r. dot r z) Kc)"
  using assms by (simp add: np_matvec_def is_matrix_def)

lemma np_broadcast_same:
  assumes "length a = length b"
  shows "np_broadcast f a b = Inr (map2 f a b)"
proof -
  have "map (\<lambda>i. f (a ! bc_ix (length b) i) (b ! bc_ix (length b) i)) [0..<length b] = map2 f a b"
    using assms by (intro nth_equalityI) (auto simp: bc_ix_def)
  then show ?thesis
    using assms by (simp add: np_broadcast_def bc_ok_def bc_dim_def)
qed

lemma grw_step_eq:
  assumes "is_matrix N N Kc" and "length u_prev = N"
    and "rand_normal R s (length u_prev) = (z, s1)" and "length z = length u_prev"
    and "rand_random R s1 = (U, s2)"
    and "zeta = map (\<lambda>r. dot r z) Kc"
    and "u_new = map2 (\<lambda>a b. a + beta * b) u_prev zeta"
    and "log_target u_new data K_inverse G = Inr (PyFloat lt_new)"
  shows "grw_step R log_target data K_inverse G Kc beta (X, acc, u_prev, PyFloat lt_prev, s) =
      Inr (if ln U < lt_new - lt_prev then (X @ [u_new], acc + 1, u_new, PyFloat lt_new, s2)
           else (X @ [u_prev], acc, u_prev, PyFloat lt_prev, s2))"
proof -
  have mv: "np_matvec Kc z = Inr zeta"
    using assms(1,2,4,6) by (simp add: np_matvec_square)
  have "length zeta = length u_prev"
    using assms(1,2,6) by (simp add: is_matrix_def)
  then have "np_broadcast (+) u_prev (map ((*) beta) zeta)
      = Inr (map2 (+) u_prev (map ((*) beta) zeta))"
    by (simp add: np_broadcast_same)
  also have "map2 (+) u_prev (map ((*) beta) zeta) = u_new"
    by (simp add: assms(7) zip_map2 case_prod_unfold)
  finally have bc: "np_broadcast (+) u_prev (map ((*) beta) zeta) = Inr u_new" .
  show ?thesis
    by (simp add: grw_step_def assms(3,5,8) mv bc)
qed

lemma pcn_step_eq:
  assumes "is_matrix N N Kc" and "length u_prev = N"
    and "rand_normal R s (length u_prev) = (z, s1)" and "length z = length u_prev"
    and "rand_random R s1 = (U, s2)"
    and "zeta = map (\<lambda>r. dot r z) Kc"
    and "u_new = map2 (\<lambda>a b. sqrt (1 - beta ^ 2) * a + beta * b) u_prev zeta"
    and "log_likelihood u_new y G = Inr (PyFloat ll_new)"
  shows "pcn_step R log_likelihood y G Kc beta (X, acc, u_prev, PyFloat ll_prev, s) =
      Inr (if ln U < ll_new - ll_prev then (X @ [u_new], acc + 1, u_new, PyFloat ll_new, s2)
           else (X @ [u_prev], acc, u_prev, PyFloat ll_prev, s2))"
proof -
  have mv: "np_matvec Kc z = Inr zeta"
    using assms(1,2,4,6) by (simp add: np_matvec_square)
  have "length zeta = length u_prev"
    using assms(1,2,6) by (simp add: is_matrix_def)
  then have "np_broadcast (+) (map ((*) (sqrt (1 - beta ^ 2))) u_prev) (map ((*) beta) zeta)
      = Inr (map2 (+) (map ((*) (sqrt (1 - beta ^ 2))) u_prev) (map ((*) beta) zeta))"
    by (simp add: np_broadcast_same)
  also have "map2 (+) (map ((*) (sqrt (1 - beta ^ 2))) u_prev) (map ((*) beta) zeta) = u_new"
    by (simp add: assms(7) zip_map1 zip_map2 case_prod_unfold)
  finally have bc: "np_broadcast (+) (map ((*) (sqrt (1 - beta ^ 2))) u_prev) (map ((*) beta) zeta)
      = Inr u_new" .
  show ?thesis
    by (simp add: pcn_step_def assms(3,5,8) mv bc)
qed

lemma for_range_total:
  assumes "P k st" and "\<And>k st. P k st \<Longrightarrow> \<exists>st'. body st = Inr st' \<and> P (Suc k) st'"
  shows "\<exists>st'. for_range n body st = Inr st' \<and> P (k + n) st'"
  using assms(1)
proof (induction n arbitrary: k st)
  case 0
  then show ?case by simp
next
  case (Suc n)
  from assms(2) [OF Suc.prems] obtain st1 where st1: "body st = Inr st1" "P (Suc k) st1"
    by blast
  from Suc.IH [OF st1(2)] show ?case
    by (simp add: st1(1))
qed

lemma grw_step_total:
  assumes Kc: "is_matrix N N Kc"
    and rng: "\<And>s n. length (fst (rand_normal R s n)) = n"
    and lt: "\<And>u. length u = N \<Longrightarrow> \<exists>v. log_target u data K_inverse G = Inr (PyFloat v)"
    and inv: "chain_inv N k st"
  shows "\<exists>st'. grw_step R log_target data K_inverse G Kc beta st = Inr st' \<and> chain_inv N (Suc k) st'"
proof -
  obtain X acc u l s where st: "st = (X, acc, u, l, s)"
    by (cases st)
  from inv obtain v where l: "l = PyFloat v" and u: "length u = N"
    and X: "length X = k" "0 \<le> acc" "acc \<le> int k"
    by (auto simp: chain_inv_def st)
  obtain z s1 where z: "rand_normal R s (length u) = (z, s1)"
    by (cases "rand_normal R s (length u)")
  have lz: "length z = length u"
    using rng [of s "length u"] z by simp
  obtain U s2 where U: "rand_random R s1 = (U, s2)"
    by (cases "rand_random R s1")
  define zeta where "zeta = map (\<lambda>r. dot r z) Kc"
  define u_new where "u_new = map2 (\<lambda>a b. a + beta * b) u zeta"
  have "length zeta = N"
    using Kc by (simp add: zeta_def is_matrix_def)
  then have ln: "length u_new = N"
    by (simp add: u_new_def u)
  from lt [OF ln] obtain w where w: "log_target u_new data K_inverse G = Inr (PyFloat w)"
    by blast
  have "grw_step R log_target data K_inverse G Kc beta (X, acc, u, PyFloat v, s) =
      Inr (if ln U < w - v then (X @ [u_new], acc + 1, u_new, PyFloat w, s2)
           else (X @ [u], acc, u, PyFloat v, s2))"
    by (rule grw_step_eq [where log_target = log_target, OF Kc u z lz U zeta_def u_new_def w])
  then show ?thesis
    using X u ln by (auto simp: st l chain_inv_def)
qed

lemma pcn_step_total:
  assumes Kc: "is_matrix N N Kc"
    and rng: "\<And>s n. length (fst (rand_normal R s n)) = n"
    and ll: "\<And>u. length u = N \<Longrightarrow> \<exists>v. log_likelihood u y G = Inr (PyFloat v)"
    and inv: "chain_inv N k st"
  shows "\<exists>st'. pcn_step R log_likelihood y G Kc beta st = Inr st' \<and> chain_inv N (Suc k) st'"
proof -
  obtain X acc u l s where st: "st = (X, acc, u, l, s)"
    by (cases st)
  from inv obtain v where l: "l = PyFloat v" and u: "length u = N"
    and X: "length X = k" "0 \<le> acc" "acc \<le> int k"
    by (auto simp: chain_inv_def st)
  obtain z s1 where z: "rand_normal R s (length u) = (z, s1)"
    by (cases "rand_normal R s (length u)")
  have lz: "length z = length u"
    using rng [of s "length u"] z by simp
  obtain U s2 where U: "rand_random R s1 = (U, s2)"
    by (cases "rand_random R s1")
  define zeta where "zeta = map (\<lambda>r. dot r z) Kc"
  define u_new where "u_new = map2 (\<lambda>a b. sqrt (1 - beta ^ 2) * a + beta * b) u zeta"
  have "length zeta = N"
    using Kc by (simp add: zeta_def is_matrix_def)
  then have ln: "length u_new = N"
    by (simp add: u_new_def u)
  from ll [OF ln] obtain w where w: "log_likelihood u_new y G = Inr (PyFloat w)"
    by blast
  have "pcn_step R log_likelihood y G Kc beta (X, acc, u, PyFloat v, s) =
      Inr (if ln U < w - v then (X @ [u_new], acc + 1, u_new, PyFloat w, s2)
           else (X @ [u], acc, u, PyFloat v, s2))"
    by (rule pcn_step_eq [where log_likelihood = log_likelihood, OF Kc u z lz U zeta_def u_new_def w])
  then show ?thesis
    using X u ln by (auto simp: st l chain_inv_def)
qed

lemma grw_total:
  assumes pf: "prior_factors K = Inr (Kc, K_inverse)" and u0: "length u0 = length K"
    and rng: "\<And>s n. length (fst (rand_normal R s n)) = n"
    and lt: "\<And>u. length u = length K \<Longrightarrow> \<exists>v. log_target u data K_inverse G = Inr (PyFloat v)"
    and n: "1 \<le> n_iters"
  shows "\<exists>lt0 X acc u l s'.
      log_target u0 data K_inverse G = Inr lt0
    \<and> for_range (nat n_iters) (grw_step R log_target data K_inverse G Kc beta) ([], 0, u0, lt0, s)
        = Inr (X, acc, u, l, s')
    \<and> grw R log_target u0 data K G n_iters beta s
        = Inr ((X, real_of_int acc / real_of_int n_iters), s')
    \<and> length X = nat n_iters \<and> 0 \<le> acc \<and> acc \<le> n_iters \<and> last X = u"
proof -
  from lt [OF u0] obtain v where v: "log_target u0 data K_inverse G = Inr (PyFloat v)"
    by blast
  have init: "chain_inv (length K) 0 ([], 0, u0, PyFloat v, s)"
    by (simp add: chain_inv_def u0)
  have step: "\<exists>st'. grw_step R log_target data K_inverse G Kc beta st = Inr st'
      \<and> chain_inv (length K) (Suc k) st'" if "chain_inv (length K) k st" for k st
    using prior_factors_shape [OF pf] rng lt that
    by (rule grw_step_total [where log_target = log_target])
  have "\<exists>st'. for_range (nat n_iters) (grw_step R log_target data K_inverse G Kc beta)
      ([], 0, u0, PyFloat v, s) = Inr st' \<and> chain_inv (length K) (0 + nat n_iters) st'"
    using init step by (rule for_range_total [where P = "chain_inv (length K)"])
  then obtain st' where st': "for_range (nat n_iters) (grw_step R log_target data K_inverse G Kc beta)
      ([], 0, u0, PyFloat v, s) = Inr st'" "chain_inv (length K) (nat n_iters) st'"
    by auto
  obtain X acc u l s' where eq: "st' = (X, acc, u, l, s')"
    by (cases st')
  have "grw R log_target u0 data K G n_iters beta s
      = Inr ((X, real_of_int acc / real_of_int n_iters), s')"
    using n by (simp add: grw_def pf v st'(1) eq py_truediv_def)
  then show ?thesis
    using st' n v by (auto simp: eq chain_inv_def)
qed

lemma pcn_total:
  assumes pf: "prior_factors K = Inr (Kc, K_inverse)" and u0: "length u0 = length K"
    and rng: "\<And>s n. length (fst (rand_normal R s n)) = n"
    and ll: "\<And>u. length u = length K \<Longrightarrow> \<exists>v. log_likelihood u y G = Inr (PyFloat v)"
    and n: "1 \<le> n_iters"
  shows "\<exists>ll0 X acc u l s'.
      log_likelihood u0 y G = Inr ll0
    \<and> for_range (nat n_iters) (pcn_step R log_likelihood y G Kc beta) ([], 0, u0, ll0, s)
        = Inr (X, acc, u, l, s')
    \<and> pcn R log_likelihood u0 y K G n_iters beta s
        = Inr ((X, real_of_int acc / real_of_int n_iters), s')
    \<and> length X = nat n_iters \<and> 0 \<le> acc \<and> acc \<le> n_iters \<and> last X = u"
proof -
  from ll [OF u0] obtain v where v: "log_likelihood u0 y G = Inr (PyFloat v)"
    by blast
  have init: "chain_inv (length K) 0 ([], 0, u0, PyFloat v, s)"
    by (simp add: chain_inv_def u0)
  have step: "\<exists>st'. pcn_step R log_likelihood y G Kc beta st = Inr st'
      \<and> chain_inv (length K) (Suc k) st'" if "chain_inv (length K) k st" for k st
    using prior_factors_shape [OF pf] rng ll that
    by (rule pcn_step_total [where log_likelihood = log_likelihood])
  have "\<exists>st'. for_range (nat n_iters) (pcn_step R log_likelihood y G Kc beta)
      ([], 0, u0, PyFloat v, s) = Inr st' \<and> chain_inv (length K) (0 + nat n_iters) st'"
    using init step by (rule for_range_total [where P = "chain_inv (length K)"])
  then obtain st' where st': "for_range (nat n_iters) (pcn_step R log_likelihood y G Kc beta)
      ([], 0, u0, PyFloat v, s) = Inr st'" "chain_inv (length K) (nat n_iters) st'"
    by auto
  obtain X acc u l s' where eq: "st' = (X, acc, u, l, s')"
    by (cases st')
  have "pcn R log_likelihood u0 y K G n_iters beta s
      = Inr ((X, real_of_int acc / real_of_int n_iters), s')"
    using n by (simp add: pcn_def pf v st'(1) eq py_truediv_def)
  then show ?thesis
    using st' n v by (auto simp: eq chain_inv_def)
qed

section \<open>The samplers on a field of one point\<close>

text \<open>
  Concrete values for the examples below: with \<open>K = [[999999/1000000]]\<close> the jittered matrix,
  its factor and its inverse are all \<open>[[1]]\<close>.
\<close>

lemma prior_factors_jitter_unit:
  "prior_factors [[999999 / 1000000]] = Inr ([[1]], [[1]])"
  by (simp add: prior_factors_def np_defs)

lemma log_continuous_likelihood_single:
  "log_continuous_likelihood [a] [b] [[1]] = Inr (PyFloat (- ((b - a) ^ 2 / 2) - ln (2 * pi) / 2))"
  by (simp add: log_continuous_likelihood_def np_defs)

lemma log_prior_single:
  "k \<noteq> 0 \<Longrightarrow> log_prior [a] [[k]] = Inr (PyFloat (- (a * k * a / 2) + ln \<bar>k\<bar> / 2 - ln (2 * pi) / 2))"
  by (simp add: log_prior_def np_defs)

lemma log_continuous_target_single:
  "k \<noteq> 0 \<Longrightarrow> log_continuous_target [a] [b] [[k]] [[1]]
     = Inr (PyFloat (- (a * k * a / 2) + ln \<bar>k\<bar> / 2 - ln (2 * pi) / 2
                     + (- ((b - a) ^ 2 / 2) - ln (2 * pi) / 2)))"
  by (simp add: log_continuous_target_def log_prior_single log_continuous_likelihood_single)

lemma counter_rng_normal_length: "length (fst (rand_normal counter_rng s n)) = n"
  by (simp add: counter_rng_def)

lemma log_continuous_target_total:
  assumes "k \<noteq> 0" and "length u = length [[k]]"
  shows "\<exists>v. log_continuous_target u [b] [[k]] [[1]] = Inr (PyFloat v)"
proof -
  from assms(2) obtain a where "u = [a]"
    by (cases u) auto
  then show ?thesis
    using assms(1) by (simp add: log_continuous_target_single)
qed

lemma log_continuous_likelihood_total:
  assumes "length u = length [[k :: real]]"
  shows "\<exists>v. log_continuous_likelihood u [b] [[1]] = Inr (PyFloat v)"
proof -
  from assms obtain a where "u = [a]"
    by (cases u) auto
  then show ?thesis
    by (simp add: log_continuous_likelihood_single)
qed

section \<open>One iteration of the random-walk sampler\<close>

text \<open>
  C2. In \<open>grw\<close> the loop runs \<open>grw_step\<close> with the factor \<open>Kc\<close> and the inverse
  \<open>K_inverse\<close> computed before it. One iteration, from the state \<open>u_prev\<close> with cached
  density \<open>lt_prev\<close>: it draws \<open>z\<close> of the length of \<open>u_prev\<close> from the normal generator,
  forms \<open>zeta = Kc z\<close>, proposes \<open>u_new = u_prev + beta zeta\<close>, evaluates
  \<open>lt_new = log_target u_new data K_inverse G\<close>, draws \<open>U\<close> in \<open>(0, 1)\<close> and accepts iff
  \<open>log U < lt_new - lt_prev\<close>. On accept \<open>u_new\<close> is appended, becomes the state with
  \<open>lt_new\<close> cached, and the count goes up by one; on reject \<open>u_prev\<close> is appended and nothing
  else changes.
\<close>

theorem grw_iteration:
  assumes "prior_factors K = Inr (Kc, K_inverse)"
    and "log_target u0 data K_inverse G = Inr lt0"
    and "length u_prev = length K"
    and "rand_normal R s (length u_prev) = (z, s1)" and "length z = length u_prev"
    and "rand_random R s1 = (U, s2)" and "0 < U" and "U < 1"
    and "zeta = map (\<lambda>r. dot r z) Kc"
    and "u_new = map2 (\<lambda>a b. a + beta * b) u_prev zeta"
    and "log_target u_new data K_inverse G = Inr (PyFloat lt_new)"
  shows "grw R log_target u0 data K G n_iters beta s0 =
      (case for_range (nat n_iters) (grw_step R log_target data K_inverse G Kc beta)
              ([], 0, u0, lt0, s0) of
         Inl e \<Rightarrow> Inl e
       | Inr (X', acc', u', lt', s') \<Rightarrow>
           (case py_truediv acc' n_iters of Inl e \<Rightarrow> Inl e | Inr rate \<Rightarrow> Inr ((X', rate), s')))
    \<and> np_matvec Kc z = Inr zeta
    \<and> grw_step R log_target data K_inverse G Kc beta (X, acc, u_prev, PyFloat lt_prev, s) =
      Inr (if ln U < lt_new - lt_prev
           then (X @ [u_new], acc + 1, u_new, PyFloat lt_new, s2)
           else (X @ [u_prev], acc, u_prev, PyFloat lt_prev, s2))"
proof -
  have Kc: "is_matrix (length K) (length K) Kc"
    using assms(1) by (rule prior_factors_shape)
  have "np_matvec Kc z = Inr zeta"
    using Kc assms(3,5,9) by (simp add: np_matvec_square)
  moreover have "grw_step R log_target data K_inverse G Kc beta (X, acc, u_prev, PyFloat lt_prev, s)
      = Inr (if ln U < lt_new - lt_prev
           then (X @ [u_new], acc + 1, u_new, PyFloat lt_new, s2)
           else (X @ [u_prev], acc, u_prev, PyFloat lt_prev, s2))"
    using Kc assms(3,4,5,6,9,10,11) by (rule grw_step_eq [where log_target = log_target])
  ultimately show ?thesis
    by (simp add: grw_def assms(1,2))
qed

theorem grw_iteration_witness:
  "grw_step counter_rng log_continuous_target [0] [[1]] [[1]] [[1]] (1 / 2)
      ([], 0, [0], PyFloat (- ln (2 * pi)), 1)
    = Inr (if ln (3 / 10 :: real) < - (1 / 4)
           then ([[1 / 2]], 1, [1 / 2], PyFloat (- (1 / 4) - ln (2 * pi)), 3)
           else ([[0]], 0, [0], PyFloat (- ln (2 * pi)), 3))"
proof -
  have n: "rand_normal counter_rng 1 (length [0 :: real]) = ([1], 2)"
    by (simp add: counter_rng_def)
  have r: "rand_random counter_rng 2 = (3 / 10, 3)"
    by (simp add: counter_rng_def)
  have t0: "log_continuous_target [0] [0] [[1]] [[1]] = Inr (PyFloat (- ln (2 * pi)))"
    by (simp add: log_continuous_target_single)
  have t1: "log_continuous_target [1 / 2] [0] [[1]] [[1]]
      = Inr (PyFloat (- (1 / 4) - ln (2 * pi)))"
    by (simp add: log_continuous_target_single power2_eq_square)
  show ?thesis
    using grw_iteration [of "[[999999 / 1000000]]" "[[1]]" "[[1]]" log_continuous_target "[0]"
        "[0]" "[[1]]" "PyFloat (- ln (2 * pi))" "[0]" counter_rng 1 "[1]" 2 "3 / 10" 3 "[1]"
        "[1 / 2]" "1 / 2" "- (1 / 4) - ln (2 * pi)" 1 0 "[]" 0 "- ln (2 * pi)",
        OF prior_factors_jitter_unit t0 _ n _ r]
      t1
    by (simp add: dot_def)
qed


section \<open>One iteration of the pCN sampler\<close>

text \<open>
  C1. \<open>Kc\<close> is the Cholesky factor of \<open>K\<close> plus the jitter, and in \<open>pcn\<close> the loop runs
  \<open>pcn_step\<close> with it. One iteration, for \<open>0 < beta < 1\<close>: it draws \<open>z\<close>, forms
  \<open>zeta = Kc z\<close>, proposes \<open>u_new = sqrt (1 - beta\<^sup>2) u_prev + beta zeta\<close>, and accepts iff
  \<open>log U < ll_new - ll_prev\<close>, where \<open>ll_new\<close> is the log-likelihood of \<open>u_new\<close>. The step
  takes neither \<open>K_inverse\<close> nor a prior density: the decision is made from the two
  log-likelihoods and \<open>U\<close> alone.
\<close>

theorem pcn_iteration:
  assumes "0 < beta" and "beta < 1"
    and "prior_factors K = Inr (Kc, K_inverse)"
    and "log_likelihood u0 y G = Inr ll0"
    and "length u_prev = length K"
    and "rand_normal R s (length u_prev) = (z, s1)" and "length z = length u_prev"
    and "rand_random R s1 = (U, s2)" and "0 < U" and "U < 1"
    and "zeta = map (\<lambda>r. dot r z) Kc"
    and "u_new = map2 (\<lambda>a b. sqrt (1 - beta ^ 2) * a + beta * b) u_prev zeta"
    and "log_likelihood u_new y G = Inr (PyFloat ll_new)"
  shows "(\<exists>Kj. np_add_mat K (mat_scale (1 / 10 ^ 6) (np_eye (length K))) = Inr Kj
          \<and> np_cholesky Kj = Inr Kc)
    \<and> pcn R log_likelihood u0 y K G n_iters beta s0 =
      (case for_range (nat n_iters) (pcn_step R log_likelihood y G Kc beta)
              ([], 0, u0, ll0, s0) of
         Inl e \<Rightarrow> Inl e
       | Inr (X', acc', u', ll', s') \<Rightarrow>
           (case py_truediv acc' n_iters of Inl e \<Rightarrow> Inl e | Inr rate \<Rightarrow> Inr ((X', rate), s')))
    \<and> np_matvec Kc z = Inr zeta
    \<and> pcn_step R log_likelihood y G Kc beta (X, acc, u_prev, PyFloat ll_prev, s) =
      Inr (if ln U < ll_new - ll_prev
           then (X @ [u_new], acc + 1, u_new, PyFloat ll_new, s2)
           else (X @ [u_prev], acc, u_prev, PyFloat ll_prev, s2))"
proof -
  have Kc: "is_matrix (length K) (length K) Kc"
    using assms(3) by (rule prior_factors_shape)
  have "np_matvec Kc z = Inr zeta"
    using Kc assms(5,7,11) by (simp add: np_matvec_square)
  moreover have "pcn_step R log_likelihood y G Kc beta (X, acc, u_prev, PyFloat ll_prev, s)
      = Inr (if ln U < ll_new - ll_prev
           then (X @ [u_new], acc + 1, u_new, PyFloat ll_new, s2)
           else (X @ [u_prev], acc, u_prev, PyFloat ll_prev, s2))"
    using Kc assms(5,6,7,8,11,12,13) by (rule pcn_step_eq [where log_likelihood = log_likelihood])
  ultimately show ?thesis
    using prior_factors_cholesky [OF assms(3)] by (simp add: pcn_def assms(3,4))
qed

theorem pcn_iteration_witness:
  "pcn_step counter_rng log_continuous_likelihood [0] [[1]] [[1]] (3 / 5)
      ([], 0, [1], PyFloat (- (1 / 2) - ln (2 * pi) / 2), 1)
    = Inr (if ln (3 / 10 :: real) < - (12 / 25)
           then ([[7 / 5]], 1, [7 / 5], PyFloat (- (49 / 50) - ln (2 * pi) / 2), 3)
           else ([[1]], 0, [1], PyFloat (- (1 / 2) - ln (2 * pi) / 2), 3))"
proof -
  have b: "(0 :: real) < 3 / 5" "(3 / 5 :: real) < 1"
    by simp_all
  have n: "rand_normal counter_rng 1 (length [1 :: real]) = ([1], 2)"
    by (simp add: counter_rng_def)
  have r: "rand_random counter_rng 2 = (3 / 10, 3)"
    by (simp add: counter_rng_def)
  have q: "sqrt (1 - (3 / 5) ^ 2) = 4 / 5"
    by (rule real_sqrt_unique) (simp_all add: power2_eq_square)
  have l0: "log_continuous_likelihood [1] [0] [[1]] = Inr (PyFloat (- (1 / 2) - ln (2 * pi) / 2))"
    by (simp add: log_continuous_likelihood_single)
  have l1: "log_continuous_likelihood [7 / 5] [0] [[1]]
      = Inr (PyFloat (- (49 / 50) - ln (2 * pi) / 2))"
    by (simp add: log_continuous_likelihood_single power2_eq_square)
  show ?thesis
    using pcn_iteration [of "3 / 5" "[[999999 / 1000000]]" "[[1]]" "[[1]]"
        log_continuous_likelihood "[1]" "[0]" "[[1]]" "PyFloat (- (1 / 2) - ln (2 * pi) / 2)"
        "[1]" counter_rng 1 "[1]" 2 "3 / 10" 3 "[1]" "[7 / 5]" "- (49 / 50) - ln (2 * pi) / 2"
        1 0 "[]" 0 "- (1 / 2) - ln (2 * pi) / 2",
        OF b prior_factors_jitter_unit l0 _ n _ r]
      l1 q
    by (simp add: dot_def)
qed

section \<open>The chain and the acceptance rate\<close>

text \<open>
  C3. For \<open>n_iters \<ge> 1\<close> and valid inputs (the factorisation succeeds, \<open>u0\<close> has one entry
  per row of \<open>K\<close>, the generator returns as many normal draws as asked, and the density
  returns a float on every field of that length), both samplers return: a chain of exactly
  \<open>n_iters\<close> entries, and the rate \<open>acc / n_iters\<close> where \<open>acc\<close> is the count the loop ends
  with; the rate lies between 0 and 1.
\<close>

theorem samplers_chain_and_rate:
  assumes "1 \<le> n_iters"
    and "prior_factors K = Inr (Kc, K_inverse)" and "length u0 = length K"
    and "\<And>s n. length (fst (rand_normal R s n)) = n"
    and "\<And>u. length u = length K \<Longrightarrow> \<exists>v. log_target u data K_inverse G = Inr (PyFloat v)"
    and "\<And>u. length u = length K \<Longrightarrow> \<exists>v. log_likelihood u y G = Inr (PyFloat v)"
  shows "(\<exists>lt0 X acc u l s'.
        log_target u0 data K_inverse G = Inr lt0
      \<and> for_range (nat n_iters) (grw_step R log_target data K_inverse G Kc beta)
            ([], 0, u0, lt0, s) = Inr (X, acc, u, l, s')
      \<and> grw R log_target u0 data K G n_iters beta s
          = Inr ((X, real_of_int acc / real_of_int n_iters), s')
      \<and> length X = nat n_iters
      \<and> 0 \<le> real_of_int acc / real_of_int n_iters
      \<and> real_of_int acc / real_of_int n_iters \<le> 1)
    \<and> (\<exists>ll0 X acc u l s'.
        log_likelihood u0 y G = Inr ll0
      \<and> for_range (nat n_iters) (pcn_step R log_likelihood y G Kc beta)
            ([], 0, u0, ll0, s) = Inr (X, acc, u, l, s')
      \<and> pcn R log_likelihood u0 y K G n_iters beta s
          = Inr ((X, real_of_int acc / real_of_int n_iters), s')
      \<and> length X = nat n_iters
      \<and> 0 \<le> real_of_int acc / real_of_int n_iters
      \<and> real_of_int acc / real_of_int n_iters \<le> 1)"
proof -
  have rate: "0 \<le> real_of_int a / real_of_int n_iters \<and> real_of_int a / real_of_int n_iters \<le> 1"
    if "0 \<le> a" "a \<le> n_iters" for a
    using that assms(1) by (simp add: divide_le_eq_1)
  from grw_total [where log_target = log_target, OF assms(2,3,4,5,1)]
  obtain lt0 X acc u l s' where g: "log_target u0 data K_inverse G = Inr lt0"
    "for_range (nat n_iters) (grw_step R log_target data K_inverse G Kc beta)
       ([], 0, u0, lt0, s) = Inr (X, acc, u, l, s')"
    "grw R log_target u0 data K G n_iters beta s
       = Inr ((X, real_of_int acc / real_of_int n_iters), s')"
    "length X = nat n_iters" "0 \<le> acc" "acc \<le> n_iters"
    by blast
  from pcn_total [where log_likelihood = log_likelihood, OF assms(2,3,4,6,1)]
  obtain ll0 X' acc' u' l' s'' where p: "log_likelihood u0 y G = Inr ll0"
    "for_range (nat n_iters) (pcn_step R log_likelihood y G Kc beta)
       ([], 0, u0, ll0, s) = Inr (X', acc', u', l', s'')"
    "pcn R log_likelihood u0 y K G n_iters beta s
       = Inr ((X', real_of_int acc' / real_of_int n_iters), s'')"
    "length X' = nat n_iters" "0 \<le> acc'" "acc' \<le> n_iters"
    by blast
  show ?thesis
    using g(1-4) p(1-4) rate [OF g(5,6)] rate [OF p(5,6)] by blast
qed


theorem samplers_chain_and_rate_witness:
  "(\<exists>X rate s'. grw counter_rng log_continuous_target [0] [0] [[1]] [[1]] 3 (1 / 2) 0
        = Inr ((X, rate), s') \<and> length X = 3 \<and> 0 \<le> rate \<and> rate \<le> 1)
   \<and> (\<exists>X rate s'. pcn counter_rng log_continuous_likelihood [0] [0] [[1]] [[1]] 3 (1 / 2) 0
        = Inr ((X, rate), s') \<and> length X = 3 \<and> 0 \<le> rate \<and> rate \<le> 1)"
proof -
  have n: "(1 :: int) \<le> 3" and u: "length [0 :: real] = length [[1 :: real]]"
    by simp_all
  have t: "\<exists>v. log_continuous_target u [0] [[1000000 / 1000001]] [[1]] = Inr (PyFloat v)"
    if "length u = length [[1 :: real]]" for u
    using that by (intro log_continuous_target_total) simp_all
  have l: "\<exists>v. log_continuous_likelihood u [0] [[1]] = Inr (PyFloat v)"
    if "length u = length [[1 :: real]]" for u
    using that by (intro log_continuous_likelihood_total) simp_all
  have "(\<exists>lt0 X acc u l s'.
        log_continuous_target [0] [0] [[1000000 / 1000001]] [[1]] = Inr lt0
      \<and> for_range (nat 3) (grw_step counter_rng log_continuous_target [0]
            [[1000000 / 1000001]] [[1]] [[sqrt (1000001 / 1000000)]] (1 / 2))
            ([], 0, [0], lt0, 0) = Inr (X, acc, u, l, s')
      \<and> grw counter_rng log_continuous_target [0] [0] [[1]] [[1]] 3 (1 / 2) 0
          = Inr ((X, real_of_int acc / real_of_int 3), s')
      \<and> length X = nat 3
      \<and> 0 \<le> real_of_int acc / real_of_int 3
      \<and> real_of_int acc / real_of_int 3 \<le> 1)
    \<and> (\<exists>ll0 X acc u l s'.
        log_continuous_likelihood [0] [0] [[1]] = Inr ll0
      \<and> for_range (nat 3) (pcn_step counter_rng log_continuous_likelihood [0] [[1]]
            [[sqrt (1000001 / 1000000)]] (1 / 2))
            ([], 0, [0], ll0, 0) = Inr (X, acc, u, l, s')
      \<and> pcn counter_rng log_continuous_likelihood [0] [0] [[1]] [[1]] 3 (1 / 2) 0
          = Inr ((X, real_of_int acc / real_of_int 3), s')
      \<and> length X = nat 3
      \<and> 0 \<le> real_of_int acc / real_of_int 3
      \<and> real_of_int acc / real_of_int 3 \<le> 1)"
    using n prior_factors_unit u counter_rng_normal_length t l
    by (rule samplers_chain_and_rate [where log_target = log_continuous_target
          and log_likelihood = log_continuous_likelihood and R = counter_rng])
  then show ?thesis
    by (simp only: nat_numeral) blast
qed

section \<open>The step size of the pCN sampler\<close>

text \<open>
  C5, as stated, fails: with \<open>beta = 1\<close>, which is not in the open interval \<open>(0, 1)\<close>,
  \<open>pcn\<close> runs its iteration and returns a chain.
\<close>

theorem pcn_beta_counterexample:
  "pcn counter_rng log_continuous_likelihood [0] [0] [[1]] [[1]] 1 1 0 = Inr (([[0]], 1), 2)"
  by (simp add: pcn_def prior_factors_unit pcn_step_def log_continuous_likelihood_def np_defs
      counter_rng_def)

text \<open>
  C5, amended. \<open>pcn\<close> does not check \<open>beta\<close>. For a \<open>beta\<close> outside \<open>(0, 1)\<close> with
  \<open>beta\<^sup>2 \<le> 1\<close>, and inputs otherwise valid as in C3, it runs all \<open>n_iters\<close> iterations
  of \<open>pcn_step\<close> with that \<open>beta\<close> and returns the chain and the rate; nothing is raised.
\<close>

theorem pcn_beta_unvalidated:
  assumes "\<not> (0 < beta \<and> beta < 1)" and "beta ^ 2 \<le> 1"
    and "1 \<le> n_iters"
    and "prior_factors K = Inr (Kc, K_inverse)" and "length u0 = length K"
    and "\<And>s n. length (fst (rand_normal R s n)) = n"
    and "\<And>u. length u = length K \<Longrightarrow> \<exists>v. log_likelihood u y G = Inr (PyFloat v)"
  shows "\<exists>ll0 X acc u l s'.
        log_likelihood u0 y G = Inr ll0
      \<and> for_range (nat n_iters) (pcn_step R log_likelihood y G Kc beta)
            ([], 0, u0, ll0, s) = Inr (X, acc, u, l, s')
      \<and> pcn R log_likelihood u0 y K G n_iters beta s
          = Inr ((X, real_of_int acc / real_of_int n_iters), s')
      \<and> length X = nat n_iters"
proof -
  from pcn_total [where log_likelihood = log_likelihood, OF assms(4,5,6,7,3)]
  show ?thesis
    by blast
qed

theorem pcn_beta_unvalidated_witness:
  "\<exists>X rate s'. pcn counter_rng log_continuous_likelihood [0] [0] [[1]] [[1]] 2 (- 1) 0
        = Inr ((X, rate), s') \<and> length X = 2"
proof -
  have b: "\<not> (0 < (- 1 :: real) \<and> (- 1 :: real) < 1)" "(- 1 :: real) ^ 2 \<le> 1"
    by simp_all
  have n: "(1 :: int) \<le> 2" and u: "length [0 :: real] = length [[1 :: real]]"
    by simp_all
  have l: "\<exists>v. log_continuous_likelihood u [0] [[1]] = Inr (PyFloat v)"
    if "length u = length [[1 :: real]]" for u
    using that by (intro log_continuous_likelihood_total) simp_all
  have "\<exists>ll0 X acc u l s'.
        log_continuous_likelihood [0] [0] [[1]] = Inr ll0
      \<and> for_range (nat 2) (pcn_step counter_rng log_continuous_likelihood [0] [[1]]
            [[sqrt (1000001 / 1000000)]] (- 1))
            ([], 0, [0], ll0, 0) = Inr (X, acc, u, l, s')
      \<and> pcn counter_rng log_continuous_likelihood [0] [0] [[1]] [[1]] 2 (- 1) 0
          = Inr ((X, real_of_int acc / real_of_int 2), s')
      \<and> length X = nat 2"
    using b n prior_factors_unit u counter_rng_normal_length l
    by (rule pcn_beta_unvalidated [where log_likelihood = log_continuous_likelihood
          and R = counter_rng])
  then show ?thesis
    by (simp only: nat_numeral) blast
qed

end
